theory Spec2Isabelle
  imports Main "HOL-Library.Word"
begin

unbundle bit_operations_syntax

section \<open>Shared data: bytes, errors, Buffer, Reader\<close>

type_synonym byte = "8 word"

text \<open>
  Go's \<^verbatim>\<open>error\<close> values that the two source files produce or test for.
  \<^verbatim>\<open>errors.Wrap(err, msg)\<close> and \<^verbatim>\<open>errors.Wrapf\<close> keep the wrapped error
  reachable by \<^verbatim>\<open>errors.Is\<close>; \<^verbatim>\<open>errors.Errorf\<close> (without a wrapping verb) makes a fresh
  leaf whose format arguments are kept as they are. \<open>Other\<close> stands for the errors of
  the environment (transport, listener, context).
\<close>

datatype fmt_arg = ArgUint "64 word" | ArgQuoted string

datatype error =
    ErrUnexpectedEOF
  | ErrShortWrite
  | Wrap error string
  | Wrapf error string "fmt_arg list"
  | Errorf string "fmt_arg list"
  | Other string

text \<open>\<^verbatim>\<open>errors.Is(err, target)\<close>: walks the chain of wrapped errors.\<close>

fun errors_Is :: "error \<Rightarrow> error \<Rightarrow> bool" where
  "errors_Is (Wrap e m) target = (Wrap e m = target \<or> errors_Is e target)"
| "errors_Is (Wrapf e m as) target = (Wrapf e m as = target \<or> errors_Is e target)"
| "errors_Is e target = (e = target)"

text \<open>
  \<^verbatim>\<open>proto.Buffer\<close> and \<^verbatim>\<open>proto.Reader\<close> are declared outside the given sources;
  the sources use \<^verbatim>\<open>b.Buf\<close> (a byte slice), \<^verbatim>\<open>b.Reset()\<close>, \<^verbatim>\<open>r.ReadRaw(n)\<close> and
  \<^verbatim>\<open>r.UVarInt()\<close>. The reader is a cursor over the bytes its source still holds.
\<close>

record Buffer =
  Buf :: "byte list"

record Reader =
  raw :: "byte list"

text \<open>
  Modelled from the spec: \<^verbatim>\<open>proto.NewReader\<close> over a byte source (the function is not
  among the given sources): a reader whose cursor stands at the first byte.
\<close>

definition NewReader :: "byte list \<Rightarrow> Reader" where
  "NewReader bs = \<lparr>raw = bs\<rparr>"

text \<open>
  Modelled from the spec: \<^verbatim>\<open>Reader.ReadRaw(n)\<close> (not among the given sources)
  "returns exactly n bytes or fails", the failure being the explicit "stream ended early"
  condition, which the repository's test names \<^verbatim>\<open>io.ErrUnexpectedEOF\<close>; a failing read
  has exhausted the source. The count is a \<open>nat\<close>: a negative count, or a product
  \<^verbatim>\<open>rows * size\<close> beyond Go's \<^verbatim>\<open>int\<close>, is outside this model.
\<close>

definition ReadRaw :: "Reader \<Rightarrow> nat \<Rightarrow> (error + byte list) \<times> Reader" where
  "ReadRaw r n =
     (if length (raw r) < n then (Inl ErrUnexpectedEOF, r\<lparr>raw := []\<rparr>)
      else (Inr (take n (raw r)), r\<lparr>raw := drop n (raw r)\<rparr>))"

text \<open>
  Modelled from the spec: \<^verbatim>\<open>Buffer.Reset()\<close> (not among the given sources): "the buffer
  is reset for reuse", that is, emptied.
\<close>

definition Buffer_Reset :: "Buffer \<Rightarrow> Buffer" where
  "Buffer_Reset b = b\<lparr>Buf := []\<rparr>"

section \<open>The Enum16 column\<close>

text \<open>
  \<^verbatim>\<open>type ColEnum16 []Enum16\<close>, where \<^verbatim>\<open>Enum16\<close> is a 16-bit integer; the conversions
  \<^verbatim>\<open>uint16(v)\<close> and \<^verbatim>\<open>Enum16(u)\<close> keep the bit pattern, so both are the identity on
  \<open>16 word\<close>.
\<close>

type_synonym Enum16 = "16 word"
type_synonym ColEnum16 = "Enum16 list"

definition Rows :: "ColEnum16 \<Rightarrow> nat" where
  "Rows c = length c"

definition Reset :: "ColEnum16 \<Rightarrow> ColEnum16" where
  "Reset c = take 0 c"

text \<open>
  Slices of a byte slice. A slice expression \<^verbatim>\<open>s[lo:hi]\<close> out of range is a run-time
  panic: \<open>None\<close>. (Go checks \<^verbatim>\<open>hi\<close> against the capacity; the model checks it against
  the length, which is never larger, so the model panics at least where Go does.)
  A slice shares its array: \<open>store\<close> writes a changed window back.
\<close>

definition slice :: "byte list \<Rightarrow> nat \<Rightarrow> nat \<Rightarrow> byte list option" where
  "slice s lo hi = (if lo \<le> hi \<and> hi \<le> length s then Some (take (hi - lo) (drop lo s)) else None)"

definition store :: "byte list \<Rightarrow> nat \<Rightarrow> byte list \<Rightarrow> byte list" where
  "store s lo w = take lo s @ w @ drop (lo + length w) s"

text \<open>
  \<^verbatim>\<open>bin\<close> is \<^verbatim>\<open>binary.LittleEndian\<close> of Go's standard library:
  \<^verbatim>\<open>PutUint16(b, v)\<close> is \<^verbatim>\<open>_ = b[1]; b[0] = byte(v); b[1] = byte(v >> 8)\<close> and
  \<^verbatim>\<open>Uint16(b)\<close> is \<^verbatim>\<open>_ = b[1]; uint16(b[0]) | uint16(b[1])<<8\<close>.
\<close>

definition PutUint16 :: "byte list \<Rightarrow> 16 word \<Rightarrow> byte list option" where
  "PutUint16 b v =
     (if length b < 2 then None
      else Some (b[0 := ucast v, 1 := ucast (drop_bit 8 v)]))"

definition Uint16 :: "byte list \<Rightarrow> 16 word option" where
  "Uint16 b =
     (if length b < 2 then None
      else Some (ucast (b ! 0) OR push_bit 8 (ucast (b ! 1))))"

abbreviation size16 :: nat where
  "size16 \<equiv> 16 div 8"

text \<open>The loop \<^verbatim>\<open>for _, v := range c\<close> of \<^verbatim>\<open>EncodeColumn\<close>, with its running offset.\<close>

fun EncodeColumn_loop :: "ColEnum16 \<Rightarrow> nat \<Rightarrow> byte list \<Rightarrow> byte list option" where
  "EncodeColumn_loop [] offset buf = Some buf"
| "EncodeColumn_loop (v # vs) offset buf =
     (case slice buf offset (offset + size16) of
        None \<Rightarrow> None
      | Some w \<Rightarrow>
          (case PutUint16 w v of
             None \<Rightarrow> None
           | Some w' \<Rightarrow> EncodeColumn_loop vs (offset + size16) (store buf offset w')))"

definition EncodeColumn :: "ColEnum16 \<Rightarrow> Buffer \<Rightarrow> Buffer option" where
  "EncodeColumn c b =
     (let offset = length (Buf b);
          buf = Buf b @ replicate (size16 * length c) 0
      in map_option (\<lambda>buf'. b\<lparr>Buf := buf'\<rparr>) (EncodeColumn_loop c offset buf))"

text \<open>
  The call through the pointer \<^verbatim>\<open>b *Buffer\<close>: \<^verbatim>\<open>len(b.Buf)\<close> is the first thing the
  body does, so a nil pointer is a run-time panic whatever the column holds.
\<close>

definition EncodeColumn_ptr :: "ColEnum16 \<Rightarrow> Buffer option \<Rightarrow> Buffer option" where
  "EncodeColumn_ptr c p = (case p of None \<Rightarrow> None | Some b \<Rightarrow> EncodeColumn c b)"

text \<open>The loop \<^verbatim>\<open>for i := 0; i < len(data); i += size\<close> of \<^verbatim>\<open>DecodeColumn\<close>.\<close>

function DecodeColumn_loop :: "byte list \<Rightarrow> nat \<Rightarrow> ColEnum16 \<Rightarrow> ColEnum16 option" where
  "DecodeColumn_loop data i v =
     (if i < length data then
        (case slice data i (i + size16) of
           None \<Rightarrow> None
         | Some w \<Rightarrow>
             (case Uint16 w of
                None \<Rightarrow> None
              | Some u \<Rightarrow> DecodeColumn_loop data (i + size16) (v @ [u])))
      else Some v)"
  by pat_completeness auto
termination
  by (relation "measure (\<lambda>(data, i, v). length data - i)") auto

declare DecodeColumn_loop.simps [simp del]

text \<open>
  \<^verbatim>\<open>DecodeColumn\<close> returns Go's error (\<open>None\<close> for \<^verbatim>\<open>nil\<close>) with the column and the
  reader as the call leaves them; the outer \<open>option\<close> is \<open>None\<close> for a panic.
\<close>

definition DecodeColumn ::
  "ColEnum16 \<Rightarrow> Reader \<Rightarrow> nat \<Rightarrow> (error option \<times> ColEnum16 \<times> Reader) option" where
  "DecodeColumn c r rows =
     (case ReadRaw r (rows * size16) of
        (Inl err, r') \<Rightarrow> Some (Some (Wrap err ''read''), c, r')
      | (Inr data, r') \<Rightarrow>
          map_option (\<lambda>v. (None, v, r')) (DecodeColumn_loop data 0 c))"

text \<open>The two bytes of a value in wire order; the lemmas on the two loops are stated with it.\<close>

definition le16 :: "16 word \<Rightarrow> byte list" where
  "le16 v = [ucast v, ucast (drop_bit 8 v)]"

section \<open>Array(Enum16)\<close>

text \<open>
  \<^verbatim>\<open>ColArr\<close> is declared outside the given sources; the sources use its fields
  \<^verbatim>\<open>Data\<close> (a \<^verbatim>\<open>Column\<close> interface value) and \<^verbatim>\<open>Offsets\<close> (to which a
  \<^verbatim>\<open>uint64\<close> is appended). \<open>Col_Other\<close> stands for a column of any other variant,
  for which the type assertion \<^verbatim>\<open>c.Data.(*ColEnum16)\<close> panics.
\<close>

datatype Column = Col_Enum16 ColEnum16 | Col_Other

record ColArr =
  Data :: Column
  Offsets :: "64 word list"

definition NewArrEnum16 :: ColArr where
  "NewArrEnum16 = \<lparr>Data = Col_Enum16 [], Offsets = []\<rparr>"

text \<open>
  The length of a Go slice is an \<^verbatim>\<open>int\<close>: \<^verbatim>\<open>append\<close> cannot make a slice of
  more than \<open>2^63 - 1\<close> elements, it panics first.
\<close>

definition maxInt :: nat where
  "maxInt = 2 ^ 63 - 1"

definition AppendEnum16 :: "ColArr \<Rightarrow> Enum16 list \<Rightarrow> ColArr option" where
  "AppendEnum16 c data =
     (case Data c of
        Col_Other \<Rightarrow> None
      | Col_Enum16 d \<Rightarrow>
          (let d' = d @ data
           in if maxInt < length d' then None
              else Some (c\<lparr>Data := Col_Enum16 d',
                           Offsets := Offsets c @ [word_of_nat (length d')]\<rparr>)))"

text \<open>A sequence of \<^verbatim>\<open>AppendEnum16\<close> calls on one array, in order.\<close>

fun AppendEnum16_calls :: "ColArr \<Rightarrow> Enum16 list list \<Rightarrow> ColArr option" where
  "AppendEnum16_calls c [] = Some c"
| "AppendEnum16_calls c (data # rest) =
     (case AppendEnum16 c data of
        None \<Rightarrow> None
      | Some c' \<Rightarrow> AppendEnum16_calls c' rest)"

section \<open>The server connection\<close>

subsection \<open>Environment: logger, transport\<close>

text \<open>
  The zap logger: an entry is written when its level is enabled; \<^verbatim>\<open>lg.Check(level, msg)\<close>
  followed by \<^verbatim>\<open>ce.Write(fields)\<close> and \<^verbatim>\<open>lg.Debug/Info/Error(msg, fields)\<close> both do
  that. \<^verbatim>\<open>lg.With(fields)\<close> is a logger on the same sink that adds the fields to every
  entry.
\<close>

datatype level = DebugLevel | InfoLevel | ErrorLevel

datatype field =
    Uint64_field string "64 word"
  | String_field string string
  | Int_field string int
  | Error_field error

record Logger =
  enabled :: "level list"
  with_fields :: "field list"
  entries :: "(level \<times> string \<times> field list) list"

definition log_write :: "Logger \<Rightarrow> level \<Rightarrow> string \<Rightarrow> field list \<Rightarrow> Logger" where
  "log_write l lv msg fs =
     (if lv \<in> set (enabled l) then l\<lparr>entries := entries l @ [(lv, msg, with_fields l @ fs)]\<rparr>
      else l)"

definition Logger_With :: "Logger \<Rightarrow> field list \<Rightarrow> Logger" where
  "Logger_With l fs = l\<lparr>with_fields := with_fields l @ fs\<rparr>"

text \<open>
  The transport \<^verbatim>\<open>net.Conn\<close>: the bytes the peer sends, the result \<^verbatim>\<open>(n, err)\<close> that
  each coming \<^verbatim>\<open>Write\<close> call will return (a call beyond the list transfers everything),
  and the argument of each \<^verbatim>\<open>Write\<close> call made so far.
\<close>

record Conn =
  remote_addr :: string
  incoming :: "byte list"
  write_results :: "(int \<times> error option) list"
  writes :: "byte list list"

definition conn_Write :: "Conn \<Rightarrow> byte list \<Rightarrow> (int \<times> error option) \<times> Conn" where
  "conn_Write k p =
     (case write_results k of
        [] \<Rightarrow> ((int (length p), None), k\<lparr>writes := writes k @ [p]\<rparr>)
      | res # rest \<Rightarrow> (res, k\<lparr>write_results := rest, writes := writes k @ [p]\<rparr>))"

subsection \<open>The parts of package proto that server.go calls\<close>

text \<open>
  \<^verbatim>\<open>proto.ClientHello\<close> and \<^verbatim>\<open>proto.ServerHello\<close>, with the fields that server.go
  reads or sets.
\<close>

record ClientHello =
  ProtocolVersion :: int

record ServerHello =
  Name :: string

text \<open>
  Package proto is not among the given sources. What server.go takes from it is a
  parameter of the model: the reader's \<^verbatim>\<open>UVarInt\<close>, the type \<^verbatim>\<open>ClientCode\<close> (the type
  variable) with the conversion from \<^verbatim>\<open>uint64\<close>, \<^verbatim>\<open>IsAClientCode\<close>, \<^verbatim>\<open>String\<close> and
  the two code constants, the decoder of the client's Hello, the encoder of the server's,
  and the value of \<^verbatim>\<open>ServerCodePong\<close>.
\<close>

record 'code Proto =
  UVarInt :: "Reader \<Rightarrow> (error + 64 word) \<times> Reader"
  ClientCode :: "64 word \<Rightarrow> 'code"
  IsAClientCode :: "'code \<Rightarrow> bool"
  ClientCode_String :: "'code \<Rightarrow> string"
  ClientCodeHello :: "'code"
  ClientCodePing :: "'code"
  ClientHello_Decode :: "ClientHello \<Rightarrow> Reader \<Rightarrow> error option \<times> ClientHello \<times> Reader"
  ServerHello_EncodeAware :: "ServerHello \<Rightarrow> Buffer \<Rightarrow> int \<Rightarrow> Buffer"
  ServerCodePong :: "64 word"

text \<open>
  Modelled from the spec: \<^verbatim>\<open>Buffer.PutUVarInt\<close> (not among the given sources) "appends a
  variable-length encoding of an unsigned integer using 7 bits per byte, continuation bit
  set on all but the final byte (little-endian group order)".
\<close>

function uvarint_bytes :: "64 word \<Rightarrow> byte list" where
  "uvarint_bytes x =
     (if x < 0x80 then [ucast x]
      else (ucast x OR 0x80) # uvarint_bytes (drop_bit 7 x))"
  by pat_completeness auto
termination
proof (relation "measure unat")
  show "wf (measure (unat :: 64 word \<Rightarrow> nat))" by simp
next
  fix x :: "64 word"
  assume "\<not> x < 0x80"
  then have "0 < unat x"
    by (simp add: word_less_nat_alt)
  then have "unat x div 2 ^ 7 < unat x"
    by simp
  moreover have "unat (drop_bit 7 x) = unat x div 2 ^ 7"
    unfolding unat_drop_bit_eq by (rule drop_bit_eq_div)
  ultimately show "(drop_bit 7 x, x) \<in> measure unat"
    by (simp only: in_measure)
qed

declare uvarint_bytes.simps [simp del]

definition PutUVarInt :: "Buffer \<Rightarrow> 64 word \<Rightarrow> Buffer" where
  "PutUVarInt b x = b\<lparr>Buf := Buf b @ uvarint_bytes x\<rparr>"

text \<open>
  Modelled from the spec: \<^verbatim>\<open>ServerCode.Encode\<close> (not among the given sources): a "packet
  code [is] encoded as a varint".
\<close>

definition ServerCode_Encode :: "64 word \<Rightarrow> Buffer \<Rightarrow> Buffer" where
  "ServerCode_Encode code b = PutUVarInt b code"

subsection \<open>ServerConn\<close>

text \<open>
  The fields \<^verbatim>\<open>tz\<close>, \<^verbatim>\<open>compressor\<close> and \<^verbatim>\<open>settings\<close> are never read or written
  by the functions below (the handshake only names the last two) and are left out.
  A function returns Go's error (\<open>None\<close> for \<^verbatim>\<open>nil\<close>) and the connection as the call
  leaves it.
\<close>

record ServerConn =
  lg :: Logger
  conn :: Conn
  buf :: Buffer
  reader :: Reader
  client :: ClientHello
  info :: ServerHello

definition packet :: "'code Proto \<Rightarrow> ServerConn \<Rightarrow> (error + 'code) \<times> ServerConn" where
  "packet P c =
     (case UVarInt P (reader c) of
        (Inl err, r') \<Rightarrow> (Inl (Wrap err ''uvarint''), c\<lparr>reader := r'\<rparr>)
      | (Inr n, r') \<Rightarrow>
          (let code = ClientCode P n;
               c1 = c\<lparr>reader := r',
                      lg := log_write (lg c) DebugLevel ''Packet''
                              [Uint64_field ''packet_code_raw'' n,
                               String_field ''packet_code'' (ClientCode_String P code)]\<rparr>
           in if \<not> IsAClientCode P code
              then (Inl (Errorf ''bad client packet type %d'' [ArgUint n]), c1)
              else (Inr code, c1)))"

definition flush :: "ServerConn \<Rightarrow> error option \<times> ServerConn" where
  "flush c =
     (case conn_Write (conn c) (Buf (buf c)) of
        ((n, err), k') \<Rightarrow>
          (let c1 = c\<lparr>conn := k'\<rparr>
           in case err of
                Some e \<Rightarrow> (Some (Wrap e ''write''), c1)
              | None \<Rightarrow>
                  if n \<noteq> int (length (Buf (buf c1)))
                  then (Some (Wrap ErrShortWrite ''wrote less than expected''), c1)
                  else (None, c1\<lparr>lg := log_write (lg c1) DebugLevel ''Flush'' [Int_field ''bytes'' n],
                                   buf := Buffer_Reset (buf c1)\<rparr>)))"

definition handshake :: "'code Proto \<Rightarrow> ServerConn \<Rightarrow> error option \<times> ServerConn" where
  "handshake P c =
     (case packet P c of
        (Inl err, c1) \<Rightarrow> (Some (Wrap err ''packet''), c1)
      | (Inr p, c1) \<Rightarrow>
          if p \<noteq> ClientCodeHello P
          then (Some (Errorf ''unexpected packet %q'' [ArgQuoted (ClientCode_String P p)]), c1)
          else
            (case ClientHello_Decode P (client c1) (reader c1) of
               (Some err, cl, r') \<Rightarrow>
                 (Some (Wrap err ''decode hello''), c1\<lparr>client := cl, reader := r'\<rparr>)
             | (None, cl, r') \<Rightarrow>
                 (let c2 = c1\<lparr>client := cl, reader := r'\<rparr>;
                      c3 = c2\<lparr>buf := ServerHello_EncodeAware P (info c2) (buf c2)
                                     (ProtocolVersion (client c2))\<rparr>
                  in case flush c3 of
                       (Some err, c4) \<Rightarrow> (Some (Wrap err ''flush''), c4)
                     | (None, c4) \<Rightarrow> (None, c4))))"

definition handlePing :: "'code Proto \<Rightarrow> ServerConn \<Rightarrow> error option \<times> ServerConn" where
  "handlePing P c = flush (c\<lparr>buf := ServerCode_Encode (ServerCodePong P) (buf c)\<rparr>)"

definition handlePacket :: "'code Proto \<Rightarrow> 'code \<Rightarrow> ServerConn \<Rightarrow> error option \<times> ServerConn" where
  "handlePacket P p c =
     (if p = ClientCodePing P then handlePing P c
      else (Some (Errorf ''%q not implemented'' [ArgQuoted (ClientCode_String P p)]), c))"

text \<open>
  The body of the \<^verbatim>\<open>for\<close> loop of \<^verbatim>\<open>Handle\<close>: an error is a \<^verbatim>\<open>return\<close>, \<open>None\<close>
  is the next iteration.
\<close>

definition Handle_body :: "'code Proto \<Rightarrow> ServerConn \<Rightarrow> error option \<times> ServerConn" where
  "Handle_body P c =
     (case packet P c of
        (Inl err, c1) \<Rightarrow> (Some (Wrap err ''packet''), c1)
      | (Inr p, c1) \<Rightarrow>
          (let c2 = c1\<lparr>lg := log_write (lg c1) DebugLevel ''Packet''
                                [String_field ''packet'' (ClientCode_String P p)]\<rparr>
           in case handlePacket P p c2 of
                (Some err, c3) \<Rightarrow>
                  (Some (Wrapf err ''handle %q'' [ArgQuoted (ClientCode_String P p)]), c3)
              | (None, c3) \<Rightarrow> (None, c3)))"

text \<open>
  The loop has no exit but the \<^verbatim>\<open>return\<close> of an error, and a peer that keeps sending
  makes it run forever: \<open>None\<close> is a call that does not return, \<open>Some (err, c)\<close> one that
  returns \<open>err\<close>.
\<close>

partial_function (option) Handle_loop :: "'code Proto \<Rightarrow> ServerConn \<Rightarrow> (error \<times> ServerConn) option" where
  "Handle_loop P c =
     (case Handle_body P c of
        (Some err, c') \<Rightarrow> Some (err, c')
      | (None, c') \<Rightarrow> Handle_loop P c')"

declare Handle_loop.simps [code]

definition Handle :: "'code Proto \<Rightarrow> ServerConn \<Rightarrow> (error \<times> ServerConn) option" where
  "Handle P c =
     (case handshake P c of
        (Some err, c1) \<Rightarrow> Some (Wrap err ''handshake'', c1)
      | (None, c1) \<Rightarrow> Handle_loop P c1)"

text \<open>
  The connection at the head of the loop of \<^verbatim>\<open>Handle\<close> before iteration \<open>k\<close>: the
  handshake and \<open>k\<close> iterations have gone through without a \<^verbatim>\<open>return\<close>.
\<close>

fun loop_head :: "'code Proto \<Rightarrow> ServerConn \<Rightarrow> nat \<Rightarrow> ServerConn option" where
  "loop_head P c 0 = (case handshake P c of (Some err, c1) \<Rightarrow> None | (None, c1) \<Rightarrow> Some c1)"
| "loop_head P c (Suc k) =
     (case loop_head P c k of
        None \<Rightarrow> None
      | Some c1 \<Rightarrow> (case Handle_body P c1 of (Some err, c2) \<Rightarrow> None | (None, c2) \<Rightarrow> Some c2))"

subsection \<open>Server\<close>

text \<open>
  \<^verbatim>\<open>Server\<close> with its logger, its worker count and its atomic connection counter
  (\<^verbatim>\<open>tz\<close> is never read). \<^verbatim>\<open>handle\<close> returns what \<^verbatim>\<open>Handle\<close> returns, with the server
  (its counter incremented; the connection's logger writes to the server's sink) and the
  connection as the call leaves them.
\<close>

record Server =
  srv_lg :: Logger
  workers :: int
  srv_conn :: "64 word"

definition handle :: "'code Proto \<Rightarrow> Server \<Rightarrow> Conn \<Rightarrow> (error \<times> Server \<times> ServerConn) option" where
  "handle P s k =
     (let n = srv_conn s + 1;
          lg1 = Logger_With (srv_lg s) [Uint64_field ''conn'' n];
          lg2 = log_write lg1 InfoLevel ''Connected'' [String_field ''addr'' (remote_addr k)];
          sConn = \<lparr>lg = lg2, conn = k, buf = \<lparr>Buf = []\<rparr>, reader = NewReader (incoming k),
                   client = \<lparr>ProtocolVersion = 0\<rparr>, info = \<lparr>Name = ''CH''\<rparr>\<rparr>
      in map_option
           (\<lambda>(err, c'). (err, s\<lparr>srv_conn := n, srv_lg := (srv_lg s)\<lparr>entries := entries (lg c')\<rparr>\<rparr>, c'))
           (Handle P sConn))"

text \<open>
  What one iteration of the loop of \<^verbatim>\<open>serve\<close> meets: \<^verbatim>\<open>ctx.Err()\<close> is not nil; or it
  is nil and \<^verbatim>\<open>ln.Accept()\<close> fails; or it is nil and \<^verbatim>\<open>ln.Accept()\<close> returns a
  connection. \<^verbatim>\<open>serve\<close> runs over the events of its iterations in order; when they
  are used up it is \<open>Accepting\<close>: back at the head of its loop.
\<close>

text \<open>
  Every \<^verbatim>\<open>return\<close> of \<^verbatim>\<open>Handle\<close> returns an error, so in \<^verbatim>\<open>serve\<close> the test
  \<^verbatim>\<open>err != nil\<close> on the result of \<^verbatim>\<open>handle\<close> holds whenever \<^verbatim>\<open>handle\<close> returns.
\<close>

datatype event = CtxErr error | AcceptErr error | Accepted Conn

datatype serve_result = Returned error | Accepting

fun serve :: "'code Proto \<Rightarrow> Server \<Rightarrow> event list \<Rightarrow> (serve_result \<times> Server) option" where
  "serve P s [] = Some (Accepting, s)"
| "serve P s (CtxErr e # evs) = Some (Returned e, s)"
| "serve P s (AcceptErr e # evs) = Some (Returned (Wrap e ''accept''), s)"
| "serve P s (Accepted k # evs) =
     (case handle P s k of
        None \<Rightarrow> None
      | Some (err, s1, c') \<Rightarrow>
          if errors_Is err ErrUnexpectedEOF then serve P s1 evs
          else serve P (s1\<lparr>srv_lg := log_write (srv_lg s1) ErrorLevel ''Handle'' [Error_field err]\<rparr>) evs)"

subsection \<open>An instance of package proto\<close>

text \<open>
  Modelled from the spec: \<^verbatim>\<open>Reader.UVarInt\<close> (not among the given sources) "decodes the
  inverse [of \<^verbatim>\<open>PutUVarInt\<close>], failing if the stream ends mid-sequence or the encoded
  value overflows the target width": at most ten bytes, the tenth at most 1.
\<close>

fun uvarint_read :: "byte list \<Rightarrow> nat \<Rightarrow> 64 word \<Rightarrow> (error + 64 word) \<times> byte list" where
  "uvarint_read [] i x = (Inl ErrUnexpectedEOF, [])"
| "uvarint_read (b # bs) i x =
     (if i = 9 \<and> 1 < b then (Inl (Other ''uvarint overflows 64 bits''), bs)
      else if b < 0x80 then (Inr (x OR push_bit (7 * i) (ucast b)), bs)
      else uvarint_read bs (Suc i) (x OR push_bit (7 * i) (ucast (b AND 0x7F))))"

definition Reader_UVarInt :: "Reader \<Rightarrow> (error + 64 word) \<times> Reader" where
  "Reader_UVarInt r = (case uvarint_read (raw r) 0 0 of (res, rest) \<Rightarrow> (res, r\<lparr>raw := rest\<rparr>))"

text \<open>
  An instance of the parameters, to run the model on: packet codes are bytes, numbered
  as in the wire protocol (client: Hello 0, Query 1, Data 2, Cancel 3, Ping 4; server:
  Pong 4); the client's Hello payload is reduced to its protocol revision and the
  server's to its packet code and its name.
\<close>

definition wire_String :: "byte \<Rightarrow> string" where
  "wire_String p =
     (if p = 0 then ''Hello'' else if p = 1 then ''Query'' else if p = 2 then ''Data''
      else if p = 3 then ''Cancel'' else if p = 4 then ''Ping'' else ''ClientCode(?)'')"

definition wire_Decode :: "ClientHello \<Rightarrow> Reader \<Rightarrow> error option \<times> ClientHello \<times> Reader" where
  "wire_Decode cl r =
     (case Reader_UVarInt r of
        (Inl err, r') \<Rightarrow> (Some (Wrap err ''protocol version''), cl, r')
      | (Inr v, r') \<Rightarrow> (None, cl\<lparr>ProtocolVersion := uint v\<rparr>, r'))"

definition wire_EncodeAware :: "ServerHello \<Rightarrow> Buffer \<Rightarrow> int \<Rightarrow> Buffer" where
  "wire_EncodeAware h b version =
     PutUVarInt (PutUVarInt b 0) (word_of_nat (length (Name h)))
       \<lparr>Buf := Buf (PutUVarInt (PutUVarInt b 0) (word_of_nat (length (Name h))))
                 @ map (\<lambda>ch. word_of_nat (of_char ch)) (Name h)\<rparr>"

definition wire :: "byte Proto" where
  "wire = \<lparr>UVarInt = Reader_UVarInt,
           ClientCode = ucast,
           IsAClientCode = (\<lambda>p. p \<le> 4),
           ClientCode_String = wire_String,
           ClientCodeHello = 0,
           ClientCodePing = 4,
           ClientHello_Decode = wire_Decode,
           ServerHello_EncodeAware = wire_EncodeAware,
           ServerCodePong = 4\<rparr>"

text \<open>A server and a peer to run the model on.\<close>

definition lg0 :: Logger where
  "lg0 = \<lparr>enabled = [InfoLevel, ErrorLevel], with_fields = [], entries = []\<rparr>"

definition peer :: "byte list \<Rightarrow> (int \<times> error option) list \<Rightarrow> Conn" where
  "peer bs results = \<lparr>remote_addr = ''peer'', incoming = bs, write_results = results, writes = []\<rparr>"

definition sconn0 :: "Conn \<Rightarrow> ServerConn" where
  "sconn0 k = \<lparr>lg = lg0, conn = k, buf = \<lparr>Buf = []\<rparr>, reader = NewReader (incoming k),
               client = \<lparr>ProtocolVersion = 0\<rparr>, info = \<lparr>Name = ''CH''\<rparr>\<rparr>"

definition server0 :: Server where
  "server0 = \<lparr>srv_lg = lg0, workers = 100, srv_conn = 0\<rparr>"

section \<open>The Enum16 column: encoding and decoding\<close>

lemma Uint16_le16: "Uint16 (le16 v) = Some v"
  unfolding Uint16_def le16_def
  by (simp, rule bit_word_eqI) (auto simp: bit_simps)

lemma length_le16: "length (le16 v) = 2"
  by (simp add: le16_def)

lemma length_enc: "length (concat (map le16 vs)) = 2 * length vs"
  by (induction vs) (simp_all add: le16_def)

lemma EncodeColumn_loop_step:
  "offset = length pre \<Longrightarrow>
   EncodeColumn_loop (v # vs) offset (pre @ a # b # post)
     = EncodeColumn_loop vs (offset + 2) ((pre @ le16 v) @ post)"
  by (simp add: slice_def store_def PutUint16_def le16_def)

lemma EncodeColumn_loop_zeros:
  "offset = length pre \<Longrightarrow>
   EncodeColumn_loop vs offset (pre @ replicate (2 * length vs) 0) = Some (pre @ concat (map le16 vs))"
proof (induction vs arbitrary: pre offset)
  case Nil
  then show ?case by simp
next
  case (Cons v vs)
  have "EncodeColumn_loop (v # vs) offset (pre @ replicate (2 * length (v # vs)) 0)
      = EncodeColumn_loop (v # vs) offset (pre @ 0 # 0 # replicate (2 * length vs) 0)"
    by simp
  also have "\<dots> = EncodeColumn_loop vs (offset + 2) ((pre @ le16 v) @ replicate (2 * length vs) 0)"
    using Cons.prems by (rule EncodeColumn_loop_step)
  also have "\<dots> = Some ((pre @ le16 v) @ concat (map le16 vs))"
    by (rule Cons.IH) (simp add: Cons.prems length_le16)
  finally show ?case by simp
qed

lemma EncodeColumn_eq: "EncodeColumn c b = Some (b\<lparr>Buf := Buf b @ concat (map le16 c)\<rparr>)"
  using EncodeColumn_loop_zeros [of "length (Buf b)" "Buf b" c] by (simp add: EncodeColumn_def)

lemma DecodeColumn_loop_step:
  "i = length pre \<Longrightarrow>
   DecodeColumn_loop (pre @ le16 x @ post) i v
     = DecodeColumn_loop ((pre @ le16 x) @ post) (i + 2) (v @ [x])"
  by (subst DecodeColumn_loop.simps) (simp add: slice_def length_le16 Uint16_le16)

lemma DecodeColumn_loop_le16:
  "i = length pre \<Longrightarrow> DecodeColumn_loop (pre @ concat (map le16 vs)) i v = Some (v @ vs)"
proof (induction vs arbitrary: pre i v)
  case Nil
  then show ?case by (simp add: DecodeColumn_loop.simps [of pre])
next
  case (Cons x vs)
  have "DecodeColumn_loop (pre @ concat (map le16 (x # vs))) i v
      = DecodeColumn_loop (pre @ le16 x @ concat (map le16 vs)) i v"
    by simp
  also have "\<dots> = DecodeColumn_loop ((pre @ le16 x) @ concat (map le16 vs)) (i + 2) (v @ [x])"
    using Cons.prems by (rule DecodeColumn_loop_step)
  also have "\<dots> = Some ((v @ [x]) @ vs)"
    by (rule Cons.IH) (simp add: Cons.prems length_le16)
  finally show ?case by simp
qed

text \<open>
  Claim C1. For every finite sequence \<open>vs\<close> of Enum16 values, the empty one
  included: \<^verbatim>\<open>EncodeColumn\<close> into a fresh buffer, then
  \<^verbatim>\<open>DecodeColumn(r, n)\<close> with \<open>n\<close> the length of
  \<open>vs\<close>, from a reader over the bytes written, into a fresh column, returns no
  error, does not panic, and leaves the column equal to \<open>vs\<close>, with
  \<^verbatim>\<open>Rows()\<close> equal to \<open>n\<close>.
\<close>

theorem ColEnum16_roundtrip:
  "map_option (\<lambda>(e, c, r). (e, c, Rows c))
     (Option.bind (EncodeColumn vs \<lparr>Buf = []\<rparr>)
        (\<lambda>b. DecodeColumn [] (NewReader (Buf b)) (length vs)))
   = Some (None, vs, length vs)"
  using DecodeColumn_loop_le16 [of 0 "[]" vs "[]"]
  by (simp add: EncodeColumn_eq DecodeColumn_def ReadRaw_def NewReader_def length_enc Rows_def)

lemma DecodeColumn_loop_appends:
  "DecodeColumn_loop data i v = Some v' \<Longrightarrow> i \<le> length data \<Longrightarrow> even (length data - i) \<Longrightarrow>
   length v' = length v + (length data - i) div 2 \<and> take (length v) v' = v"
proof (induction data i v rule: DecodeColumn_loop.induct)
  case (1 data i v)
  show ?case
  proof (cases "i < length data")
    case False
    with "1.prems" show ?thesis by (simp add: DecodeColumn_loop.simps [of data i v])
  next
    case True
    with "1.prems" have i2: "i + 2 \<le> length data"
      by (cases "length data - i = 1") auto
    then obtain w where w: "slice data i (i + size16) = Some w" and lw: "length w = 2"
      by (simp add: slice_def)
    from lw obtain u where u: "Uint16 w = Some u"
      by (simp add: Uint16_def)
    from "1.prems"(1) True w u
    have rec: "DecodeColumn_loop data (i + size16) (v @ [u]) = Some v'"
      by (simp add: DecodeColumn_loop.simps [of data i v])
    have ev: "even (length data - (i + size16))"
      using "1.prems"(3) i2 by simp
    have "length v' = length (v @ [u]) + (length data - (i + size16)) div 2
          \<and> take (length (v @ [u])) v' = v @ [u]"
      using "1.IH" [OF True w u rec] i2 ev by simp
    then have a: "length v' = length v + 1 + (length data - (i + 2)) div 2"
      and b: "take (Suc (length v)) v' = v @ [u]" by simp_all
    from b have "take (length v) (take (Suc (length v)) v') = v" by simp
    then have c: "take (length v) v' = v" by (simp add: min_def)
    have "(length data - i) div 2 = 1 + (length data - (i + 2)) div 2"
      using i2 by (simp add: div_eq_dividend_iff)
    with a c show ?thesis by simp
  qed
qed

text \<open>
  Claim C2, as amended. \<^verbatim>\<open>DecodeColumn\<close> appends: after a successful
  call \<^verbatim>\<open>DecodeColumn(r, n)\<close> the rows that were there stand
  unchanged in front and \<^verbatim>\<open>Rows()\<close> is
  \<^verbatim>\<open>Rows()\<close> before the call plus \<open>n\<close>; so it is
  \<open>n\<close> for a column that was empty.
\<close>

theorem DecodeColumn_appends_rows:
  "DecodeColumn c r n = Some (None, c', r') \<Longrightarrow> Rows c' = Rows c + n \<and> take (Rows c) c' = c"
proof -
  assume a: "DecodeColumn c r n = Some (None, c', r')"
  then have enough: "\<not> length (raw r) < n * 2"
    by (auto simp: DecodeColumn_def ReadRaw_def split: if_splits)
  with a have "DecodeColumn_loop (take (n * 2) (raw r)) 0 c = Some c'"
    by (auto simp: DecodeColumn_def ReadRaw_def)
  from DecodeColumn_loop_appends [OF this] enough
  show ?thesis by (simp add: Rows_def min_def)
qed

text \<open>
  Claim C2 as stated (\<^verbatim>\<open>Rows()\<close> equals \<open>n\<close> from any
  starting state) fails on a column that holds one row: a successful
  \<^verbatim>\<open>DecodeColumn(r, 1)\<close> leaves two rows.
\<close>

theorem DecodeColumn_rows_counterexample:
  "DecodeColumn [1] \<lparr>raw = [0, 0]\<rparr> 1 = Some (None, [1, 0], \<lparr>raw = []\<rparr>)
   \<and> Rows [1, 0 :: Enum16] \<noteq> 1"
  by (simp add: DecodeColumn_def ReadRaw_def Rows_def DecodeColumn_loop.simps slice_def Uint16_def)

text \<open>A run of the amended claim C2: two values decoded after one row.\<close>

theorem DecodeColumn_appends_rows_witness:
  "DecodeColumn [7] \<lparr>raw = [1, 0, 2, 1]\<rparr> 2 = Some (None, [7, 1, 258], \<lparr>raw = []\<rparr>)
   \<and> Rows [7, 1, 258 :: Enum16] = Rows [7 :: Enum16] + 2 \<and> take (Rows [7 :: Enum16]) [7, 1, 258 :: Enum16] = [7]"
proof -
  have h: "DecodeColumn [7] \<lparr>raw = [1, 0, 2, 1]\<rparr> 2 = Some (None, [7, 1, 258], \<lparr>raw = []\<rparr>)"
    by (simp add: DecodeColumn_def ReadRaw_def DecodeColumn_loop.simps slice_def Uint16_def)
  from DecodeColumn_appends_rows [OF h] h show ?thesis by simp
qed




text \<open>
  The call of the repository's test, \<^verbatim>\<open>v.EncodeColumn(nil)\<close>, passes no buffer at all:
  the body reads \<^verbatim>\<open>b.Buf\<close> before it looks at the column, which is a panic.
\<close>

lemma EncodeColumn_nil_pointer: "EncodeColumn_ptr c None = None"
  by (simp add: EncodeColumn_ptr_def)

section \<open>Array(Enum16): offsets\<close>

lemma unat_len: "n \<le> maxInt \<Longrightarrow> unat (word_of_nat n :: 64 word) = n"
  by (simp add: maxInt_def unat_of_nat)

lemma AppendEnum16_Some:
  "Data c = Col_Enum16 d \<Longrightarrow> AppendEnum16 c data = Some c' \<Longrightarrow>
   length (d @ data) \<le> maxInt \<and> Data c' = Col_Enum16 (d @ data)
   \<and> Offsets c' = Offsets c @ [word_of_nat (length (d @ data))]"
  by (auto simp: AppendEnum16_def Let_def split: if_splits)

lemma AppendEnum16_calls_inv:
  "AppendEnum16_calls c ds = Some a \<Longrightarrow> Data c = Col_Enum16 d \<Longrightarrow>
   sorted (map unat (Offsets c)) \<Longrightarrow> \<forall>x\<in>set (Offsets c). unat x \<le> length d \<Longrightarrow>
   Data a = Col_Enum16 (d @ concat ds) \<and> sorted (map unat (Offsets a))
   \<and> (\<forall>x\<in>set (Offsets a). unat x \<le> length (d @ concat ds))
   \<and> length (Offsets a) = length (Offsets c) + length ds
   \<and> (ds \<noteq> [] \<longrightarrow> unat (last (Offsets a)) = length (d @ concat ds))"
proof (induction ds arbitrary: c d)
  case Nil
  then show ?case by simp
next
  case (Cons data rest)
  from Cons.prems(1) obtain c1 where c1: "AppendEnum16 c data = Some c1"
    and rest: "AppendEnum16_calls c1 rest = Some a"
    by (auto split: option.splits)
  define n where "n = length (d @ data)"
  define w :: "64 word" where "w = word_of_nat n"
  from AppendEnum16_Some [OF Cons.prems(2) c1]
  have len: "n \<le> maxInt" and d1: "Data c1 = Col_Enum16 (d @ data)"
    and o1: "Offsets c1 = Offsets c @ [w]" by (simp_all add: n_def w_def)
  have u: "unat w = n"
    unfolding w_def using len by (rule unat_len)
  have dn: "length d \<le> n" by (simp add: n_def)
  have s1: "sorted (map unat (Offsets c1))"
    using Cons.prems(3,4) dn by (auto simp: o1 u sorted_append)
  have "\<forall>x\<in>set (Offsets c1). unat x \<le> n"
    using Cons.prems(4) dn by (auto simp: o1 u)
  then have b1: "\<forall>x\<in>set (Offsets c1). unat x \<le> length (d @ data)"
    by (simp only: n_def)
  note IH = Cons.IH [OF rest d1 s1 b1]
  show ?case
  proof (cases "rest = []")
    case True
    with rest have "a = c1" by simp
    with IH True show ?thesis by (simp add: o1 u n_def)
  next
    case False
    with IH show ?thesis by (simp add: o1)
  qed
qed

lemma sorted_unat: "sorted (map unat xs) \<Longrightarrow> sorted (xs :: 64 word list)"
  by (induction xs) (auto simp: word_le_nat_alt)

text \<open>
  Claim C5. On an array whose \<^verbatim>\<open>Data\<close> is a
  \<^verbatim>\<open>ColEnum16\<close> holding \<open>d\<close>, a call
  \<^verbatim>\<open>AppendEnum16(data)\<close> that returns leaves \<open>d @ data\<close>
  in the inner column and appends the new row count of the inner column to
  \<^verbatim>\<open>Offsets\<close>. After any sequence \<open>ds\<close> of calls from
  \<^verbatim>\<open>NewArrEnum16()\<close> the inner column holds the values of all calls
  in order, there is one offset for each call, the offsets are non-decreasing (as unsigned
  64-bit integers) and, when there is one, the last offset equals
  \<^verbatim>\<open>Data.Rows()\<close>.
\<close>

theorem AppendEnum16_offsets:
  "(Data c = Col_Enum16 d \<and> AppendEnum16 c data = Some c' \<longrightarrow>
      Data c' = Col_Enum16 (d @ data)
      \<and> Offsets c' = Offsets c @ [word_of_nat (Rows (d @ data))])
   \<and> (AppendEnum16_calls NewArrEnum16 ds = Some a \<longrightarrow>
      Data a = Col_Enum16 (concat ds) \<and> length (Offsets a) = length ds
      \<and> sorted (Offsets a)
      \<and> (ds \<noteq> [] \<longrightarrow> unat (last (Offsets a)) = Rows (concat ds)))"
proof (intro conjI impI)
  assume "Data c = Col_Enum16 d \<and> AppendEnum16 c data = Some c'"
  then have *: "Data c = Col_Enum16 d" "AppendEnum16 c data = Some c'" by simp_all
  from AppendEnum16_Some [OF *] show "Data c' = Col_Enum16 (d @ data)" by simp
  from AppendEnum16_Some [OF *]
  show "Offsets c' = Offsets c @ [word_of_nat (Rows (d @ data))]" by (simp add: Rows_def)
next
  assume r: "AppendEnum16_calls NewArrEnum16 ds = Some a"
  have "Data NewArrEnum16 = Col_Enum16 []" "sorted (map unat (Offsets NewArrEnum16))"
    "\<forall>x\<in>set (Offsets NewArrEnum16). unat x \<le> length ([] :: Enum16 list)"
    by (simp_all add: NewArrEnum16_def)
  note inv = AppendEnum16_calls_inv [OF r this]
  from inv show "Data a = Col_Enum16 (concat ds)" by simp
  from inv show "length (Offsets a) = length ds" by (simp add: NewArrEnum16_def)
  from inv show "sorted (Offsets a)" by (simp add: sorted_unat)
  from inv show "ds \<noteq> [] \<Longrightarrow> unat (last (Offsets a)) = Rows (concat ds)" by (simp add: Rows_def)
qed

text \<open>A run of claim C5: three calls, the second with no values.\<close>

theorem AppendEnum16_offsets_witness:
  "Data NewArrEnum16 = Col_Enum16 []
   \<and> AppendEnum16 NewArrEnum16 [1, 2, 3] = Some \<lparr>Data = Col_Enum16 [1, 2, 3], Offsets = [3]\<rparr>
   \<and> AppendEnum16_calls NewArrEnum16 [[1, 2, 3], [], [4]]
       = Some \<lparr>Data = Col_Enum16 [1, 2, 3, 4], Offsets = [3, 3, 4]\<rparr>
   \<and> sorted [3, 3, 4 :: 64 word] \<and> unat (last [3, 3, 4 :: 64 word]) = Rows [1, 2, 3, 4]"
  using AppendEnum16_offsets [of NewArrEnum16 "[]" "[1, 2, 3]" "\<lparr>Data = Col_Enum16 [1, 2, 3], Offsets = [3]\<rparr>"
      "[[1, 2, 3], [], [4]]" "\<lparr>Data = Col_Enum16 [1, 2, 3, 4], Offsets = [3, 3, 4]\<rparr>"]
  by (simp add: AppendEnum16_def NewArrEnum16_def maxInt_def Rows_def)

section \<open>The server: handshake, packets, flush, accept loop\<close>

text \<open>
  Claim C8. Let the transport answer \<open>(n, err)\<close> to the
  \<^verbatim>\<open>Write\<close> of the pending buffer. \<^verbatim>\<open>flush\<close>
  returns no error exactly when \<open>err\<close> is nil and \<open>n\<close> is the length
  of the buffer, and then the buffer is empty afterwards. Otherwise it returns an error (the
  transport's, wrapped, or \<^verbatim>\<open>io.ErrShortWrite\<close>, wrapped, when
  \<open>err\<close> is nil and \<open>n\<close> is not the length) and the buffer is left
  as it was.
\<close>

theorem flush_all_or_error:
  "conn_Write (conn c) (Buf (buf c)) = ((n, err), k') \<Longrightarrow>
   flush c = (r, c') \<Longrightarrow>
   conn c' = k'
   \<and> (r = None \<longleftrightarrow> err = None \<and> n = int (length (Buf (buf c))))
   \<and> (r = None \<longrightarrow> Buf (buf c') = [])
   \<and> (r \<noteq> None \<longrightarrow> buf c' = buf c)
   \<and> (\<forall>e. err = Some e \<longrightarrow> r = Some (Wrap e ''write''))
   \<and> (err = None \<and> n \<noteq> int (length (Buf (buf c))) \<longrightarrow>
        r = Some (Wrap ErrShortWrite ''wrote less than expected'')
        \<and> errors_Is (Wrap ErrShortWrite ''wrote less than expected'') ErrShortWrite)"
  by (auto simp: flush_def Let_def Buffer_Reset_def split: option.splits if_splits)

text \<open>
  Runs of claim C8 on a buffer of two bytes: a write of one byte, a write that fails, and a
  write of both bytes.
\<close>

theorem flush_all_or_error_witness:
  "flush ((sconn0 (peer [] [(1, None)]))\<lparr>buf := \<lparr>Buf = [4, 4]\<rparr>\<rparr>)
     = (Some (Wrap ErrShortWrite ''wrote less than expected''),
        (sconn0 (peer [] [(1, None)]))
          \<lparr>buf := \<lparr>Buf = [4, 4]\<rparr>, conn := (peer [] [])\<lparr>writes := [[4, 4]]\<rparr>\<rparr>)
   \<and> flush ((sconn0 (peer [] [(0, Some (Other ''broken pipe''))]))\<lparr>buf := \<lparr>Buf = [4, 4]\<rparr>\<rparr>)
     = (Some (Wrap (Other ''broken pipe'') ''write''),
        (sconn0 (peer [] [(0, Some (Other ''broken pipe''))]))
          \<lparr>buf := \<lparr>Buf = [4, 4]\<rparr>, conn := (peer [] [])\<lparr>writes := [[4, 4]]\<rparr>\<rparr>)
   \<and> flush ((sconn0 (peer [] []))\<lparr>buf := \<lparr>Buf = [4, 4]\<rparr>\<rparr>)
     = (None,
        (sconn0 (peer [] []))
          \<lparr>buf := \<lparr>Buf = []\<rparr>, conn := (peer [] [])\<lparr>writes := [[4, 4]]\<rparr>\<rparr>)"
proof -
  let ?b = "\<lparr>Buf = [4, 4]\<rparr>"
  let ?k' = "(peer [] [])\<lparr>writes := [[4, 4]]\<rparr>"
  let ?c1 = "(sconn0 (peer [] [(1, None)]))\<lparr>buf := ?b\<rparr>"
  let ?c2 = "(sconn0 (peer [] [(0, Some (Other ''broken pipe''))]))\<lparr>buf := ?b\<rparr>"
  let ?c3 = "(sconn0 (peer [] []))\<lparr>buf := ?b\<rparr>"
  have w1: "conn_Write (conn ?c1) (Buf (buf ?c1)) = ((1, None), ?k')"
    by (simp add: conn_Write_def sconn0_def peer_def)
  have w2: "conn_Write (conn ?c2) (Buf (buf ?c2)) = ((0, Some (Other ''broken pipe'')), ?k')"
    by (simp add: conn_Write_def sconn0_def peer_def)
  have w3: "conn_Write (conn ?c3) (Buf (buf ?c3)) = ((2, None), ?k')"
    by (simp add: conn_Write_def sconn0_def peer_def)
  have f1: "flush ?c1 = (Some (Wrap ErrShortWrite ''wrote less than expected''), ?c1\<lparr>conn := ?k'\<rparr>)"
    by (simp add: flush_def conn_Write_def sconn0_def peer_def)
  have f2: "flush ?c2 = (Some (Wrap (Other ''broken pipe'') ''write''), ?c2\<lparr>conn := ?k'\<rparr>)"
    by (simp add: flush_def conn_Write_def sconn0_def peer_def)
  have f3: "flush ?c3 = (None, (sconn0 (peer [] []))\<lparr>buf := \<lparr>Buf = []\<rparr>, conn := ?k'\<rparr>)"
    by (simp add: flush_def conn_Write_def sconn0_def peer_def lg0_def log_write_def Buffer_Reset_def)
  have r1: "conn (?c1\<lparr>conn := ?k'\<rparr>) = ?k'"
    by (rule flush_all_or_error [OF w1 f1, THEN conjunct1])
  have r2: "conn (?c2\<lparr>conn := ?k'\<rparr>) = ?k'"
    by (rule flush_all_or_error [OF w2 f2, THEN conjunct1])
  have r3: "Buf (buf ((sconn0 (peer [] []))\<lparr>buf := \<lparr>Buf = []\<rparr>, conn := ?k'\<rparr>)) = []"
    using flush_all_or_error [OF w3 f3, THEN conjunct2, THEN conjunct2, THEN conjunct1]
    by (rule mp) (rule refl)
  from r1 r2 r3 f1 f2 f3 show ?thesis by (intro conjI) assumption+
qed

text \<open>Facts to evaluate the runs on the instance \<open>wire\<close>.\<close>

lemma wire_simps:
  "UVarInt wire = Reader_UVarInt" "ClientCode wire = ucast" "IsAClientCode wire = (\<lambda>p. p \<le> 4)"
  "ClientCode_String wire = wire_String" "ClientCodeHello wire = 0" "ClientCodePing wire = 4"
  "ClientHello_Decode wire = wire_Decode" "ServerHello_EncodeAware wire = wire_EncodeAware"
  "ServerCodePong wire = 4"
  by (simp_all add: wire_def)

lemma uvarint_bytes_small: "x < 0x80 \<Longrightarrow> uvarint_bytes x = [ucast x]"
  by (simp add: uvarint_bytes.simps)

lemmas run_defs = sconn0_def peer_def lg0_def server0_def NewReader_def Reader_UVarInt_def
  wire_String_def wire_Decode_def wire_EncodeAware_def PutUVarInt_def ServerCode_Encode_def
  log_write_def Logger_With_def conn_Write_def Buffer_Reset_def uvarint_bytes_small


lemma packet_code:
  "UVarInt P (reader c) = (Inr n, r1) \<Longrightarrow>
   packet P c =
     (if IsAClientCode P (ClientCode P n) then Inr (ClientCode P n)
      else Inl (Errorf ''bad client packet type %d'' [ArgUint n]),
      c\<lparr>reader := r1,
         lg := log_write (lg c) DebugLevel ''Packet''
                 [Uint64_field ''packet_code_raw'' n,
                  String_field ''packet_code'' (ClientCode_String P (ClientCode P n))]\<rparr>)"
  by (simp add: packet_def Let_def)

text \<open>
  Claim C6. Let the first packet code of a connection be read as \<open>n\<close>, and
  \<open>c1\<close> be the connection after that read. If the code is not a valid client
  code, or is a valid one other than Hello, \<^verbatim>\<open>Handle\<close> returns the
  handshake's error with the connection at \<open>c1\<close>: nothing further has been read
  and nothing written. If it is Hello, \<^verbatim>\<open>Handle\<close> decodes the
  client's Hello, then encodes the server's Hello into the buffer, then flushes, and only
  when all three went through enters the packet loop.
\<close>

theorem handshake_first_packet:
  "UVarInt P (reader c) = (Inr n, r1) \<Longrightarrow>
   c1 = c\<lparr>reader := r1,
           lg := log_write (lg c) DebugLevel ''Packet''
                   [Uint64_field ''packet_code_raw'' n,
                    String_field ''packet_code'' (ClientCode_String P (ClientCode P n))]\<rparr> \<Longrightarrow>
   (\<not> IsAClientCode P (ClientCode P n) \<longrightarrow>
      Handle P c = Some (Wrap (Wrap (Errorf ''bad client packet type %d'' [ArgUint n]) ''packet'')
                           ''handshake'', c1))
   \<and> (IsAClientCode P (ClientCode P n) \<and> ClientCode P n \<noteq> ClientCodeHello P \<longrightarrow>
      Handle P c = Some (Wrap (Errorf ''unexpected packet %q''
                                 [ArgQuoted (ClientCode_String P (ClientCode P n))])
                           ''handshake'', c1))
   \<and> (IsAClientCode P (ClientCode P n) \<and> ClientCode P n = ClientCodeHello P \<longrightarrow>
      Handle P c =
        (case ClientHello_Decode P (client c) r1 of
           (Some err, cl, r2) \<Rightarrow>
             Some (Wrap (Wrap err ''decode hello'') ''handshake'', c1\<lparr>client := cl, reader := r2\<rparr>)
         | (None, cl, r2) \<Rightarrow>
             (case flush (c1\<lparr>client := cl, reader := r2,
                              buf := ServerHello_EncodeAware P (info c) (buf c) (ProtocolVersion cl)\<rparr>) of
                (Some err, c4) \<Rightarrow> Some (Wrap (Wrap err ''flush'') ''handshake'', c4)
              | (None, c4) \<Rightarrow> Handle_loop P c4)))"
  by (auto simp: Handle_def handshake_def packet_code Let_def split: prod.splits option.splits)

text \<open>
  Runs of claim C6: a first packet code 9 (not a client code), a first packet Query, and a
  first packet Hello with protocol revision 5, answered by the server's Hello.
\<close>

theorem handshake_first_packet_witness:
  "Handle wire (sconn0 (peer [9] []))
     = Some (Wrap (Wrap (Errorf ''bad client packet type %d'' [ArgUint 9]) ''packet'') ''handshake'',
             (sconn0 (peer [9] []))\<lparr>reader := \<lparr>raw = []\<rparr>\<rparr>)
   \<and> Handle wire (sconn0 (peer [1, 0] []))
     = Some (Wrap (Errorf ''unexpected packet %q'' [ArgQuoted ''Query'']) ''handshake'',
             (sconn0 (peer [1, 0] []))\<lparr>reader := \<lparr>raw = [0]\<rparr>\<rparr>)
   \<and> Handle wire (sconn0 (peer [0, 5, 4] []))
     = Handle_loop wire
         ((sconn0 (peer [0, 5, 4] []))
            \<lparr>reader := \<lparr>raw = [4]\<rparr>, client := \<lparr>ProtocolVersion = 5\<rparr>,
              conn := (peer [0, 5, 4] [])\<lparr>writes := [[0, 2, 67, 72]]\<rparr>\<rparr>)"
  using
    handshake_first_packet [of wire "sconn0 (peer [9] [])" 9 "\<lparr>raw = []\<rparr>" "(sconn0 (peer [9] []))\<lparr>reader := \<lparr>raw = []\<rparr>\<rparr>"]
    handshake_first_packet [of wire "sconn0 (peer [1, 0] [])" 1 "\<lparr>raw = [0]\<rparr>" "(sconn0 (peer [1, 0] []))\<lparr>reader := \<lparr>raw = [0]\<rparr>\<rparr>"]
    handshake_first_packet [of wire "sconn0 (peer [0, 5, 4] [])" 0 "\<lparr>raw = [5, 4]\<rparr>" "(sconn0 (peer [0, 5, 4] []))\<lparr>reader := \<lparr>raw = [5, 4]\<rparr>\<rparr>"]
  by (simp add: wire_simps run_defs flush_def)





lemma Handle_loop_next: "Handle_body P c = (None, c') \<Longrightarrow> Handle_loop P c = Handle_loop P c'"
  by (subst Handle_loop.simps) simp

lemma Handle_loop_return: "Handle_body P c = (Some err, c') \<Longrightarrow> Handle_loop P c = Some (err, c')"
  by (subst Handle_loop.simps) simp

lemma Handle_loop_head: "loop_head P c0 k = Some c \<Longrightarrow> Handle P c0 = Handle_loop P c"
proof (induction k arbitrary: c)
  case 0
  then show ?case by (auto simp: Handle_def split: prod.splits option.splits)
next
  case (Suc k)
  then obtain c1 where c1: "loop_head P c0 k = Some c1" and b: "Handle_body P c1 = (None, c)"
    by (auto split: prod.splits option.splits)
  from Suc.IH [OF c1] Handle_loop_next [OF b] show ?case by simp
qed





text \<open>
  Claim C10. For every packet code \<open>p\<close> other than Ping,
  \<^verbatim>\<open>handlePacket\<close> returns the error "not implemented" and leaves the
  connection as it was; and when such a packet arrives in the packet loop,
  \<^verbatim>\<open>Handle\<close> returns that error, wrapped: the connection is over.
\<close>

theorem handlePacket_not_implemented:
  "p \<noteq> ClientCodePing P \<Longrightarrow>
   handlePacket P p c = (Some (Errorf ''%q not implemented'' [ArgQuoted (ClientCode_String P p)]), c)
   \<and> (loop_head P c0 k = Some c \<and> packet P c = (Inr p, c1) \<longrightarrow>
        Handle P c0 =
          Some (Wrapf (Errorf ''%q not implemented'' [ArgQuoted (ClientCode_String P p)])
                  ''handle %q'' [ArgQuoted (ClientCode_String P p)],
                c1\<lparr>lg := log_write (lg c1) DebugLevel ''Packet''
                             [String_field ''packet'' (ClientCode_String P p)]\<rparr>))"
proof (intro conjI impI)
  assume np: "p \<noteq> ClientCodePing P"
  then show "handlePacket P p c = (Some (Errorf ''%q not implemented'' [ArgQuoted (ClientCode_String P p)]), c)"
    by (simp add: handlePacket_def)
  assume "loop_head P c0 k = Some c \<and> packet P c = (Inr p, c1)"
  then have h: "loop_head P c0 k = Some c" and pk: "packet P c = (Inr p, c1)" by simp_all
  from pk np have "Handle_body P c = (Some (Wrapf (Errorf ''%q not implemented'' [ArgQuoted (ClientCode_String P p)])
                  ''handle %q'' [ArgQuoted (ClientCode_String P p)]),
                c1\<lparr>lg := log_write (lg c1) DebugLevel ''Packet''
                             [String_field ''packet'' (ClientCode_String P p)]\<rparr>)"
    by (simp add: Handle_body_def handlePacket_def Let_def)
  from Handle_loop_return [OF this] Handle_loop_head [OF h]
  show "Handle P c0 =
          Some (Wrapf (Errorf ''%q not implemented'' [ArgQuoted (ClientCode_String P p)])
                  ''handle %q'' [ArgQuoted (ClientCode_String P p)],
                c1\<lparr>lg := log_write (lg c1) DebugLevel ''Packet''
                             [String_field ''packet'' (ClientCode_String P p)]\<rparr>)" by simp
qed

text \<open>A run of claim C10: Hello, then Query.\<close>

theorem handlePacket_not_implemented_witness:
  "(1 :: byte) \<noteq> ClientCodePing wire
   \<and> handlePacket wire 1
         ((sconn0 (peer [0, 5, 1] []))
                 \<lparr>reader := \<lparr>raw = [1]\<rparr>, client := \<lparr>ProtocolVersion = 5\<rparr>,
                   conn := (peer [0, 5, 1] [])\<lparr>writes := [[0, 2, 67, 72]]\<rparr>\<rparr>)
       = (Some (Errorf ''%q not implemented'' [ArgQuoted ''Query'']),
          (sconn0 (peer [0, 5, 1] []))
                 \<lparr>reader := \<lparr>raw = [1]\<rparr>, client := \<lparr>ProtocolVersion = 5\<rparr>,
                   conn := (peer [0, 5, 1] [])\<lparr>writes := [[0, 2, 67, 72]]\<rparr>\<rparr>)
   \<and> Handle wire (sconn0 (peer [0, 5, 1] []))
       = Some (Wrapf (Errorf ''%q not implemented'' [ArgQuoted ''Query'']) ''handle %q''
                 [ArgQuoted ''Query''],
               (sconn0 (peer [0, 5, 1] []))
                 \<lparr>reader := \<lparr>raw = []\<rparr>, client := \<lparr>ProtocolVersion = 5\<rparr>,
                   conn := (peer [0, 5, 1] [])\<lparr>writes := [[0, 2, 67, 72]]\<rparr>\<rparr>)"
  using handlePacket_not_implemented [of 1 wire
      "(sconn0 (peer [0, 5, 1] []))
                 \<lparr>reader := \<lparr>raw = [1]\<rparr>, client := \<lparr>ProtocolVersion = 5\<rparr>,
                   conn := (peer [0, 5, 1] [])\<lparr>writes := [[0, 2, 67, 72]]\<rparr>\<rparr>"
      "sconn0 (peer [0, 5, 1] [])" 0
      "(sconn0 (peer [0, 5, 1] []))
                 \<lparr>reader := \<lparr>raw = []\<rparr>, client := \<lparr>ProtocolVersion = 5\<rparr>,
                   conn := (peer [0, 5, 1] [])\<lparr>writes := [[0, 2, 67, 72]]\<rparr>\<rparr>"]
  by (simp add: wire_simps run_defs flush_def packet_def handshake_def)

lemma serve_Returned:
  "serve P s evs = Some (Returned e, s') \<Longrightarrow>
   CtxErr e \<in> set evs \<or> (\<exists>e0. e = Wrap e0 ''accept'' \<and> AcceptErr e0 \<in> set evs)"
proof (induction P s evs rule: serve.induct)
  case (4 P s k evs)
  then show ?case by (auto split: option.splits prod.splits if_splits)
qed auto

text \<open>
  Claim C9. When \<^verbatim>\<open>handle\<close> returns with an error for an accepted
  connection, \<^verbatim>\<open>serve\<close> goes on with the next iteration: with the
  server as \<^verbatim>\<open>handle\<close> left it when the error is an
  \<^verbatim>\<open>io.ErrUnexpectedEOF\<close> (nothing is logged), and after
  \<^verbatim>\<open>lg.Error("Handle", err)\<close> otherwise. When
  \<^verbatim>\<open>serve\<close> returns, it returns the error of the context or the
  wrapped error of a failed \<^verbatim>\<open>Accept\<close>.
\<close>

theorem serve_continues:
  "(handle P s k = Some (err, s1, c') \<longrightarrow>
      serve P s (Accepted k # evs) =
        serve P (if errors_Is err ErrUnexpectedEOF then s1
                 else s1\<lparr>srv_lg := log_write (srv_lg s1) ErrorLevel ''Handle'' [Error_field err]\<rparr>) evs)
   \<and> (serve P s evs = Some (Returned e, s') \<longrightarrow>
      CtxErr e \<in> set evs \<or> (\<exists>e0. e = Wrap e0 ''accept'' \<and> AcceptErr e0 \<in> set evs))"
  using serve_Returned [of P s evs e s'] by simp

text \<open>
  A run of claim C9: a peer that closes at once (not logged), a peer whose first packet is
  Query (logged), then a failing \<^verbatim>\<open>Accept\<close>, which makes
  \<^verbatim>\<open>serve\<close> return.
\<close>

theorem serve_continues_witness:
  "handle wire server0 (peer [] [])
     = Some (Wrap (Wrap (Wrap ErrUnexpectedEOF ''uvarint'') ''packet'') ''handshake'',
             server0\<lparr>srv_conn := 1,
                     srv_lg := lg0\<lparr>entries := [(InfoLevel, ''Connected'',
                                 [Uint64_field ''conn'' 1, String_field ''addr'' ''peer''])]\<rparr>\<rparr>,
             (sconn0 (peer [] []))
               \<lparr>lg := lg0\<lparr>with_fields := [Uint64_field ''conn'' 1],
                           entries := [(InfoLevel, ''Connected'',
                                 [Uint64_field ''conn'' 1, String_field ''addr'' ''peer''])]\<rparr>\<rparr>)
   \<and> serve wire server0 [Accepted (peer [] []), Accepted (peer [1] []), AcceptErr (Other ''closed'')]
     = Some (Returned (Wrap (Other ''closed'') ''accept''),
             server0\<lparr>srv_conn := 2,
                     srv_lg := lg0\<lparr>entries :=
                       [(InfoLevel, ''Connected'', [Uint64_field ''conn'' 1, String_field ''addr'' ''peer'']),
                        (InfoLevel, ''Connected'', [Uint64_field ''conn'' 2, String_field ''addr'' ''peer'']),
                        (ErrorLevel, ''Handle'',
                         [Error_field (Wrap (Errorf ''unexpected packet %q'' [ArgQuoted ''Query''])
                                         ''handshake'')])]\<rparr>\<rparr>)
   \<and> AcceptErr (Other ''closed'')
       \<in> set [Accepted (peer [] []), Accepted (peer [1] []), AcceptErr (Other ''closed'')]"
  using serve_continues [of wire server0 "peer [] []"
      "Wrap (Wrap (Wrap ErrUnexpectedEOF ''uvarint'') ''packet'') ''handshake''"
      "server0\<lparr>srv_conn := 1,
                     srv_lg := lg0\<lparr>entries := [(InfoLevel, ''Connected'',
                                 [Uint64_field ''conn'' 1, String_field ''addr'' ''peer''])]\<rparr>\<rparr>"
      "(sconn0 (peer [] []))
               \<lparr>lg := lg0\<lparr>with_fields := [Uint64_field ''conn'' 1],
                           entries := [(InfoLevel, ''Connected'',
                                 [Uint64_field ''conn'' 1, String_field ''addr'' ''peer''])]\<rparr>\<rparr>"
      "[Accepted (peer [1] []), AcceptErr (Other ''closed'')]"
      "Wrap (Other ''closed'') ''accept''"
      "server0\<lparr>srv_conn := 2,
                     srv_lg := lg0\<lparr>entries :=
                       [(InfoLevel, ''Connected'', [Uint64_field ''conn'' 1, String_field ''addr'' ''peer'']),
                        (InfoLevel, ''Connected'', [Uint64_field ''conn'' 2, String_field ''addr'' ''peer'']),
                        (ErrorLevel, ''Handle'',
                         [Error_field (Wrap (Errorf ''unexpected packet %q'' [ArgQuoted ''Query''])
                                         ''handshake'')])]\<rparr>\<rparr>"]
  by (simp add: wire_simps run_defs handle_def Handle_def handshake_def packet_def)

end
